theory Spec2Isabelle
  imports Main
begin

section \<open>The binding layer of cvat-core: \<^verbatim>\<open>src/cvat-core/src/api-implementation.js\<close>\<close>

text \<open>
  The file wires the implementations of the public operations
  (\<^verbatim>\<open>cvat.users.get\<close>, \<^verbatim>\<open>cvat.jobs.get\<close>, \<^verbatim>\<open>cvat.tasks.get\<close>, \<^verbatim>\<open>cvat.projects.get\<close>,
  \<^verbatim>\<open>cvat.cloudStorages.get\<close>, \<^verbatim>\<open>cvat.organizations.activate\<close>, ...) onto the API object.
  Each operation validates its filter, builds a wire query, awaits the transport
  (\<^verbatim>\<open>serverProxy\<close>) and wraps the raw records into domain objects.

  The embedding is shallow. An operation is a function from its arguments and the
  transport's answers to the pair of the transport calls it made, in order, and its
  outcome: the error it threw or the value it returned.
\<close>

subsection \<open>JavaScript values and plain objects\<close>

text \<open>
  \<open>JNum\<close> stands for an integer-valued number of magnitude at most \<open>2\<^sup>5\<^sup>3 - 1\<close>, the
  integers a double holds exactly; other doubles (fractions, NaN, larger magnitudes) are
  left out. A plain object is the list of its own
  enumerable string-keyed properties in property order; its keys are distinct.
\<close>

datatype jsval =
    JUndefined
  | JNull
  | JBool bool
  | JNum int
  | JStr string
  | JArr "jsval list"
  | JObj "(string \<times> jsval) list"

type_synonym obj = "(string \<times> jsval) list"

text \<open>The truthiness of a value, as \<^verbatim>\<open>if (v)\<close> and \<^verbatim>\<open>a && b\<close> test it.\<close>

fun truthy :: "jsval \<Rightarrow> bool" where
  "truthy JUndefined = False"
| "truthy JNull = False"
| "truthy (JBool b) = b"
| "truthy (JNum n) = (n \<noteq> 0)"
| "truthy (JStr s) = (s \<noteq> [])"
| "truthy (JArr xs) = True"
| "truthy (JObj ps) = True"

text \<open>\<^verbatim>\<open>key in o\<close> and \<^verbatim>\<open>Object.prototype.hasOwnProperty.call(o, key)\<close> on a plain object.\<close>

definition has_key :: "obj \<Rightarrow> string \<Rightarrow> bool" where
  "has_key ob k = (map_of ob k \<noteq> None)"

text \<open>\<^verbatim>\<open>o[key]\<close> and \<^verbatim>\<open>o.key\<close>: reading a missing property gives \<^verbatim>\<open>undefined\<close>.\<close>

definition js_get :: "obj \<Rightarrow> string \<Rightarrow> jsval" where
  "js_get ob k = (case map_of ob k of None \<Rightarrow> JUndefined | Some v \<Rightarrow> v)"

text \<open>
  \<^verbatim>\<open>o[key] = v\<close>: an existing property keeps its place, a new one is appended.
\<close>

fun js_set :: "obj \<Rightarrow> string \<Rightarrow> jsval \<Rightarrow> obj" where
  "js_set [] k v = [(k, v)]"
| "js_set ((k', v') # ps) k v = (if k' = k then (k, v) # ps else (k', v') # js_set ps k v)"

subsection \<open>Errors, transport calls and effects\<close>

text \<open>
  \<open>ArgumentError\<close> is the exception class the file imports from \<^verbatim>\<open>./exceptions\<close> and throws
  itself. \<open>InvalidFieldError\<close>, \<open>InvalidTypeError\<close>, \<open>ConflictingFieldsError\<close> and
  \<open>MalformedRecordError\<close> are the names the specification gives to the failures of the
  helpers of \<^verbatim>\<open>./common\<close> and of the entity constructors, none of which is among the
  sources. \<open>TypeError\<close> is the runtime's own; \<open>ServerError\<close> is a failure of the transport,
  which the operations let through unchanged.
\<close>

datatype checker = isBoolean | isInteger | isString | isEnum "jsval list"

datatype error =
    ArgumentError string
  | InvalidFieldError string
  | InvalidTypeError string checker jsval
  | ConflictingFieldsError "string list"
  | MalformedRecordError
  | TypeError
  | ServerError string

text \<open>The calls to \<^verbatim>\<open>serverProxy\<close>, each with the wire query it was given.\<close>

datatype call =
    UsersSelf
  | UsersGet obj
  | TasksGet obj
  | JobsGet obj
  | ProjectsGet obj
  | CloudStoragesGet string
  | OrganizationsGet

text \<open>
  An array that the transport returns with a \<^verbatim>\<open>count\<close> property attached to it:
  \<open>reply_count\<close> is \<open>JUndefined\<close> when the array carries none.
\<close>

record reply =
  results :: "jsval list"
  reply_count :: jsval

record project_reply =
  project_results :: "obj list"
  project_count :: jsval

text \<open>
  The transport collaborator \<^verbatim>\<open>serverProxy\<close> (\<^verbatim>\<open>./server-proxy\<close>, not among the sources) is
  a parameter: one answer per resource and wire query, a raw reply or a failure.
  \<^verbatim>\<open>serverProxy.jobs.get\<close> answers a single raw record or a page object
  \<^verbatim>\<open>{results, count}\<close>, so its answer is a plain value.
\<close>

record serverProxy =
  users_self :: "error + jsval"
  users_get :: "obj \<Rightarrow> error + jsval list"
  tasks_get :: "obj \<Rightarrow> error + reply"
  jobs_get :: "obj \<Rightarrow> error + jsval"
  projects_get :: "obj \<Rightarrow> error + project_reply"
  cloudStorages_get :: "string \<Rightarrow> error + reply"
  organizations_get :: "error + jsval list"

text \<open>
  The result of an operation: the transport calls made so far and either the error thrown
  or the value returned. \<open>eff_bind\<close> sequences two steps; a thrown error skips the rest.
\<close>

type_synonym 'a eff = "call list \<times> (error + 'a)"

definition eff_return :: "'a \<Rightarrow> 'a eff" where
  "eff_return x = ([], Inr x)"

definition eff_throw :: "error \<Rightarrow> 'a eff" where
  "eff_throw e = ([], Inl e)"

definition eff_lift :: "error + 'a \<Rightarrow> 'a eff" where
  "eff_lift r = ([], r)"

definition eff_await :: "call \<Rightarrow> error + 'a \<Rightarrow> 'a eff" where
  "eff_await c r = ([c], r)"

definition eff_bind :: "'a eff \<Rightarrow> ('a \<Rightarrow> 'b eff) \<Rightarrow> 'b eff" where
  "eff_bind m f =
     (case m of
        (tr, Inl e) \<Rightarrow> (tr, Inl e)
      | (tr, Inr x) \<Rightarrow> (case f x of (tr', r) \<Rightarrow> (tr @ tr', r)))"

text \<open>
  \<^verbatim>\<open>xs.map((x) => new C(x))\<close>: the constructor runs on each element in order, and the
  first one that throws ends the whole map.
\<close>

fun map_new :: "('a \<Rightarrow> error + 'b) \<Rightarrow> 'a list \<Rightarrow> error + 'b list" where
  "map_new C [] = Inr []"
| "map_new C (x # xs) =
     (case C x of
        Inl e \<Rightarrow> Inl e
      | Inr y \<Rightarrow> (case map_new C xs of Inl e \<Rightarrow> Inl e | Inr ys \<Rightarrow> Inr (y # ys)))"

text \<open>
  A JavaScript array as an operation returns it: its elements and its \<^verbatim>\<open>count\<close> property
  (\<open>JUndefined\<close> when the operation sets none).
\<close>

record 'e collection =
  items :: "'e list"
  count :: jsval

subsection \<open>The helpers of \<^verbatim>\<open>./common\<close>\<close>

text \<open>
  Modelled from the spec: the predicates \<^verbatim>\<open>isBoolean\<close>, \<^verbatim>\<open>isInteger\<close>, \<^verbatim>\<open>isString\<close> and
  \<^verbatim>\<open>isEnum\<close> of \<^verbatim>\<open>./common\<close>, which is not among the sources. Section 3: a validator
  predicate is a type check or an enum-membership check against a fixed value set.
\<close>

fun accepts :: "checker \<Rightarrow> jsval \<Rightarrow> bool" where
  "accepts isBoolean v = (case v of JBool b \<Rightarrow> True | _ \<Rightarrow> False)"
| "accepts isInteger v = (case v of JNum n \<Rightarrow> True | _ \<Rightarrow> False)"
| "accepts isString v = (case v of JStr s \<Rightarrow> True | _ \<Rightarrow> False)"
| "accepts (isEnum vs) v = (v \<in> set vs)"

text \<open>
  Modelled from the spec: \<^verbatim>\<open>checkFilter\<close> of \<^verbatim>\<open>./common\<close>, which is not among the sources.
  Section 4.1: for every key in the filter, the schema must contain that key; if not, the
  check fails with \<open>InvalidFieldError\<close> naming the offending key. For every key present
  in both, the schema's predicate must accept the value; if not, it fails with
  \<open>InvalidTypeError\<close> naming the key, the expected kind and the actual value. The keys
  are visited in property order and the first offending key decides the error.
\<close>

fun checkFilter :: "obj \<Rightarrow> (string \<times> checker) list \<Rightarrow> error + unit" where
  "checkFilter [] schema = Inr ()"
| "checkFilter ((k, v) # rest) schema =
     (case map_of schema k of
        None \<Rightarrow> Inl (InvalidFieldError k)
      | Some p \<Rightarrow> if accepts p v then checkFilter rest schema else Inl (InvalidTypeError k p v))"

text \<open>
  Modelled from the spec: \<^verbatim>\<open>checkExclusiveFields\<close> of \<^verbatim>\<open>./common\<close>, which is not among the
  sources. Section 4.2: count how many of the group's field names appear as keys in the
  filter; if more than one is present, fail with \<open>ConflictingFieldsError\<close> listing the
  conflicting field names. A field of the group together with any subset of the allowed
  companions is permitted.
\<close>

definition checkExclusiveFields :: "obj \<Rightarrow> string list \<Rightarrow> string list \<Rightarrow> error + unit" where
  "checkExclusiveFields filt exclusive allowedCompanions =
     (let present = [field \<leftarrow> exclusive. has_key filt field]
      in if 1 < length present then Inl (ConflictingFieldsError present) else Inr ())"

text \<open>
  Modelled from the spec: \<^verbatim>\<open>camelToSnake\<close> of \<^verbatim>\<open>./common\<close>, which is not among the sources.
  Section 4.3: the general rule converts a mixed-case identifier into a lower-case,
  word-separated identifier (\<^verbatim>\<open>providerType\<close> becomes \<^verbatim>\<open>provider_type\<close>): every upper-case
  letter after the first character starts a new word, written in lower case after an
  underscore, and the first character is only put in lower case.
\<close>

definition is_upper :: "char \<Rightarrow> bool" where
  "is_upper c = (65 \<le> (of_char c :: nat) \<and> (of_char c :: nat) \<le> 90)"

definition to_lower :: "char \<Rightarrow> char" where
  "to_lower c = (if is_upper c then char_of ((of_char c :: nat) + 32) else c)"

fun camelToSnake :: "string \<Rightarrow> string" where
  "camelToSnake [] = []"
| "camelToSnake (c # cs) =
     to_lower c # concat (map (\<lambda>x. if is_upper x then [CHR ''_'', to_lower x] else [x]) cs)"

text \<open>
  The enumerations of \<^verbatim>\<open>./enums\<close> (not among the sources) are a parameter: the value set
  of each, as \<^verbatim>\<open>isEnum.bind(TaskStatus)\<close> reads it.
\<close>

record enums =
  TaskStatus :: "jsval list"
  TaskMode :: "jsval list"
  DimensionType :: "jsval list"
  CloudStorageProviderType :: "jsval list"
  CloudStorageCredentialsType :: "jsval list"

subsection \<open>\<^verbatim>\<open>cvat.users.get\<close> (lines 126 to 151)\<close>

definition users_schema :: "(string \<times> checker) list" where
  "users_schema =
     [(''id'', isInteger), (''is_active'', isBoolean), (''self'', isBoolean),
      (''search'', isString), (''limit'', isInteger)]"

text \<open>
  Lines 140 to 145: \<^verbatim>\<open>for (const key in filter)\<close>, copying \<^verbatim>\<open>filter[key]\<close> into
  \<^verbatim>\<open>searchParams\<close> when \<^verbatim>\<open>filter[key] && key !== 'self'\<close>.
\<close>

fun users_loop :: "obj \<Rightarrow> string list \<Rightarrow> obj \<Rightarrow> obj" where
  "users_loop filt [] searchParams = searchParams"
| "users_loop filt (key # rest) searchParams =
     users_loop filt rest
       (if truthy (js_get filt key) \<and> key \<noteq> ''self''
        then js_set searchParams key (js_get filt key)
        else searchParams)"

definition users_searchParams :: "obj \<Rightarrow> obj" where
  "users_searchParams filt = users_loop filt (map fst filt) []"

definition cvat_users_get ::
  "serverProxy \<Rightarrow> (jsval \<Rightarrow> error + 'user) \<Rightarrow> obj \<Rightarrow> 'user list eff" where
  "cvat_users_get sp User filt =
     eff_bind (eff_lift (checkFilter filt users_schema)) (\<lambda>_.
     eff_bind
       (if has_key filt ''self'' \<and> truthy (js_get filt ''self'')
        then eff_bind (eff_await UsersSelf (users_self sp)) (\<lambda>user. eff_return [user])
        else eff_await (UsersGet (users_searchParams filt))
               (users_get sp (users_searchParams filt)))
       (\<lambda>users. eff_lift (map_new User users)))"

subsection \<open>\<^verbatim>\<open>cvat.jobs.get\<close> (lines 153 to 187)\<close>

definition jobs_schema :: "(string \<times> checker) list" where
  "jobs_schema =
     [(''page'', isInteger), (''stage'', isString), (''state'', isString),
      (''assignee'', isString), (''taskID'', isInteger), (''jobID'', isInteger)]"

text \<open>
  \<^verbatim>\<open>jobsData.results.map(...)\<close>: reading \<^verbatim>\<open>results\<close> off \<^verbatim>\<open>undefined\<close> or \<^verbatim>\<open>null\<close> and
  calling \<^verbatim>\<open>map\<close> on anything but an array both throw a \<open>TypeError\<close>.
\<close>

definition page_results :: "jsval \<Rightarrow> error + jsval list" where
  "page_results jobsData =
     (case jobsData of
        JObj ps \<Rightarrow> (case js_get ps ''results'' of JArr rs \<Rightarrow> Inr rs | _ \<Rightarrow> Inl TypeError)
      | _ \<Rightarrow> Inl TypeError)"

definition page_count :: "jsval \<Rightarrow> jsval" where
  "page_count jobsData = (case jobsData of JObj ps \<Rightarrow> js_get ps ''count'' | _ \<Rightarrow> JUndefined)"

text \<open>Lines 183 to 186: the generic paginated query, given the filter as it is.\<close>

definition jobs_page :: "serverProxy \<Rightarrow> (jsval \<Rightarrow> error + 'job) \<Rightarrow> obj \<Rightarrow> 'job collection eff" where
  "jobs_page sp Job filt =
     eff_bind (eff_await (JobsGet filt) (jobs_get sp filt)) (\<lambda>jobsData.
     eff_bind (eff_lift (page_results jobsData)) (\<lambda>rs.
     eff_bind (eff_lift (map_new Job rs)) (\<lambda>jobs.
     eff_return \<lparr>items = jobs, count = page_count jobsData\<rparr>)))"

definition conflict_message :: string where
  \<open>conflict_message =
     ''Filter fields "taskID" and "jobID" are not permitted to be used at the same time''\<close>

text \<open>
  \<open>Task\<close>, \<open>Task_jobs\<close> and \<open>Job\<close> stand for the classes of \<^verbatim>\<open>./session\<close> (not among the
  sources): \<^verbatim>\<open>new Task(raw)\<close>, the \<^verbatim>\<open>jobs\<close> getter of a task and \<^verbatim>\<open>new Job(raw)\<close>.
  \<^verbatim>\<open>const [task] = ...\<close> takes the first element of the reply, \<^verbatim>\<open>undefined\<close> when it is
  empty.
\<close>

definition cvat_jobs_get ::
  "serverProxy \<Rightarrow> (jsval \<Rightarrow> error + 'task) \<Rightarrow> ('task \<Rightarrow> 'job collection) \<Rightarrow>
   (jsval \<Rightarrow> error + 'job) \<Rightarrow> obj \<Rightarrow> 'job collection eff" where
  "cvat_jobs_get sp Task Task_jobs Job filt =
     eff_bind (eff_lift (checkFilter filt jobs_schema)) (\<lambda>_.
     if has_key filt ''taskID'' \<and> has_key filt ''jobID''
     then eff_throw (ArgumentError conflict_message)
     else if has_key filt ''taskID''
     then
       eff_bind
         (eff_await (TasksGet [(''id'', js_get filt ''taskID'')])
            (tasks_get sp [(''id'', js_get filt ''taskID'')]))
         (\<lambda>tasksData.
            case results tasksData of
              [] \<Rightarrow> eff_return \<lparr>items = [], count = JUndefined\<rparr>
            | task # _ \<Rightarrow>
                if truthy task
                then eff_bind (eff_lift (Task task)) (\<lambda>t. eff_return (Task_jobs t))
                else eff_return \<lparr>items = [], count = JUndefined\<rparr>)
     else if has_key filt ''jobID''
     then
       eff_bind
         (eff_await (JobsGet [(''id'', js_get filt ''jobID'')])
            (jobs_get sp [(''id'', js_get filt ''jobID'')]))
         (\<lambda>job.
            if truthy job
            then eff_bind (eff_lift (Job job)) (\<lambda>j. eff_return \<lparr>items = [j], count = JUndefined\<rparr>)
            else jobs_page sp Job filt)
     else jobs_page sp Job filt)"

subsection \<open>\<^verbatim>\<open>cvat.tasks.get\<close> (lines 189 to 231)\<close>

definition tasks_schema :: "enums \<Rightarrow> (string \<times> checker) list" where
  "tasks_schema E =
     [(''page'', isInteger), (''projectId'', isInteger), (''name'', isString),
      (''id'', isInteger), (''owner'', isString), (''assignee'', isString),
      (''search'', isString), (''ordering'', isString),
      (''status'', isEnum (TaskStatus E)), (''mode'', isEnum (TaskMode E)),
      (''dimension'', isEnum (DimensionType E))]"

text \<open>
  Lines 207 to 223 (and 247 to 251): \<^verbatim>\<open>for (const field of [...])\<close>, copying
  \<^verbatim>\<open>filter[field]\<close> to \<^verbatim>\<open>searchParams[camelToSnake(field)]\<close> when the filter has the field.
\<close>

fun translate_loop :: "obj \<Rightarrow> string list \<Rightarrow> obj \<Rightarrow> obj" where
  "translate_loop filt [] searchParams = searchParams"
| "translate_loop filt (field # rest) searchParams =
     translate_loop filt rest
       (if has_key filt field
        then js_set searchParams (camelToSnake field) (js_get filt field)
        else searchParams)"

definition tasks_searchParams :: "obj \<Rightarrow> obj" where
  "tasks_searchParams filt =
     translate_loop filt
       [''name'', ''owner'', ''assignee'', ''search'', ''ordering'', ''status'', ''mode'',
        ''id'', ''page'', ''projectId'', ''dimension''] []"

definition cvat_tasks_get ::
  "serverProxy \<Rightarrow> enums \<Rightarrow> (jsval \<Rightarrow> error + 'task) \<Rightarrow> obj \<Rightarrow> 'task collection eff" where
  "cvat_tasks_get sp E Task filt =
     eff_bind (eff_lift (checkFilter filt (tasks_schema E))) (\<lambda>_.
     eff_bind (eff_lift (checkExclusiveFields filt [''id'', ''search'', ''projectId''] [''page''])) (\<lambda>_.
     eff_bind (eff_await (TasksGet (tasks_searchParams filt))
                 (tasks_get sp (tasks_searchParams filt))) (\<lambda>tasksData.
     eff_bind (eff_lift (map_new Task (results tasksData))) (\<lambda>tasks.
     eff_return \<lparr>items = tasks, count = reply_count tasksData\<rparr>))))"

subsection \<open>\<^verbatim>\<open>cvat.projects.get\<close> (lines 233 to 262)\<close>

definition projects_schema :: "enums \<Rightarrow> (string \<times> checker) list" where
  "projects_schema E =
     [(''id'', isInteger), (''page'', isInteger), (''name'', isString),
      (''assignee'', isString), (''owner'', isString), (''search'', isString),
      (''status'', isEnum (TaskStatus E))]"

definition projects_searchParams :: "obj \<Rightarrow> obj" where
  "projects_searchParams filt =
     translate_loop filt
       [''name'', ''assignee'', ''owner'', ''search'', ''status'', ''id'', ''page''] []"

text \<open>Lines 254 to 257: \<^verbatim>\<open>project.task_ids = project.tasks; return project;\<close>\<close>

definition copy_task_ids :: "obj \<Rightarrow> obj" where
  "copy_task_ids project = js_set project ''task_ids'' (js_get project ''tasks'')"

text \<open>\<open>Project\<close> stands for \<^verbatim>\<open>new Project(raw)\<close> of \<^verbatim>\<open>./project\<close> (not among the sources).\<close>

definition cvat_projects_get ::
  "serverProxy \<Rightarrow> enums \<Rightarrow> (obj \<Rightarrow> error + 'project) \<Rightarrow> obj \<Rightarrow> 'project collection eff" where
  "cvat_projects_get sp E Project filt =
     eff_bind (eff_lift (checkFilter filt (projects_schema E))) (\<lambda>_.
     eff_bind (eff_lift (checkExclusiveFields filt [''id'', ''search''] [''page''])) (\<lambda>_.
     eff_bind (eff_await (ProjectsGet (projects_searchParams filt))
                 (projects_get sp (projects_searchParams filt))) (\<lambda>projectsData.
     eff_bind (eff_lift (map_new Project (map copy_task_ids (project_results projectsData))))
       (\<lambda>projects.
     eff_return \<lparr>items = projects, count = project_count projectsData\<rparr>))))"

subsection \<open>\<^verbatim>\<open>cvat.cloudStorages.get\<close> (lines 267 to 306)\<close>

text \<open>
  \<^verbatim>\<open>URLSearchParams\<close> is the platform's class, not the repository's. Its state is the list
  of its name and value pairs. \<^verbatim>\<open>set(name, value)\<close> turns the value into a string, writes
  it over the first pair of that name and deletes the other pairs of that name, or appends
  a new pair when the name is not there. A number is written in decimal, which is what the
  platform prints for the integers of magnitude at most \<open>2\<^sup>5\<^sup>3 - 1\<close> that \<open>JNum\<close> stands
  for; beyond them the platform rounds to 17 significant digits, and from \<open>10\<^sup>2\<^sup>1\<close> on it
  prints an exponent, which \<open>dec_int\<close> does not follow.
\<close>

function dec_nat :: "nat \<Rightarrow> string" where
  "dec_nat n = (if n < 10 then [char_of (48 + n)] else dec_nat (n div 10) @ [char_of (48 + n mod 10)])"
  by pat_completeness auto
termination
  by (relation "measure (\<lambda>n. n)") auto

definition dec_int :: "int \<Rightarrow> string" where
  "dec_int i = (if i < 0 then CHR ''-'' # dec_nat (nat (- i)) else dec_nat (nat i))"

fun join_strings :: "string \<Rightarrow> string list \<Rightarrow> string" where
  "join_strings sep [] = []"
| "join_strings sep [s] = s"
| "join_strings sep (s # t # rest) = s @ sep @ join_strings sep (t # rest)"

fun js_String :: "jsval \<Rightarrow> string" where
  "js_String JUndefined = ''undefined''"
| "js_String JNull = ''null''"
| "js_String (JBool b) = (if b then ''true'' else ''false'')"
| "js_String (JNum n) = dec_int n"
| "js_String (JStr s) = s"
| "js_String (JArr xs) =
     join_strings '',''
       (map (\<lambda>x. if x = JUndefined \<or> x = JNull then [] else js_String x) xs)"
| "js_String (JObj ps) = ''[object Object]''"

fun URLSearchParams_set ::
  "(string \<times> string) list \<Rightarrow> string \<Rightarrow> string \<Rightarrow> (string \<times> string) list" where
  "URLSearchParams_set [] name v = [(name, v)]"
| "URLSearchParams_set ((k, w) # ps) name v =
     (if k = name then (name, v) # [p \<leftarrow> ps. fst p \<noteq> name]
      else (k, w) # URLSearchParams_set ps name v)"

text \<open>
  \<^verbatim>\<open>toString()\<close> is the \<^verbatim>\<open>application/x-www-form-urlencoded\<close> serializer over the bytes of
  the names and values: letters, digits and \<^verbatim>\<open>*-._\<close> stay, a space becomes \<^verbatim>\<open>+\<close>, every
  other byte becomes \<^verbatim>\<open>%\<close> and two upper-case hexadecimal digits.
\<close>

definition hex_digit :: "nat \<Rightarrow> char" where
  "hex_digit n = (if n < 10 then char_of (48 + n) else char_of (55 + n))"

definition form_byte :: "char \<Rightarrow> string" where
  "form_byte c =
     (let n = (of_char c :: nat) in
      if (48 \<le> n \<and> n \<le> 57) \<or> (65 \<le> n \<and> n \<le> 90) \<or> (97 \<le> n \<and> n \<le> 122)
         \<or> n = 42 \<or> n = 45 \<or> n = 46 \<or> n = 95
      then [c]
      else if n = 32 then ''+''
      else [CHR ''%'', hex_digit (n div 16), hex_digit (n mod 16)])"

definition URLSearchParams_toString :: "(string \<times> string) list \<Rightarrow> string" where
  "URLSearchParams_toString ps =
     join_strings ''&''
       (map (\<lambda>p. concat (map form_byte (fst p)) @ ''='' @ concat (map form_byte (snd p))) ps)"

definition cloudStorages_schema :: "enums \<Rightarrow> (string \<times> checker) list" where
  "cloudStorages_schema E =
     [(''page'', isInteger), (''displayName'', isString), (''resourceName'', isString),
      (''description'', isString), (''id'', isInteger), (''owner'', isString),
      (''search'', isString),
      (''providerType'', isEnum (CloudStorageProviderType E)),
      (''credentialsType'', isEnum (CloudStorageCredentialsType E))]"

text \<open>
  Lines 283 to 296: \<^verbatim>\<open>for (const field of [...])\<close>, with
  \<^verbatim>\<open>searchParams.set(camelToSnake(field), filter[field])\<close> when the filter has the field.
\<close>

fun query_loop :: "obj \<Rightarrow> string list \<Rightarrow> (string \<times> string) list \<Rightarrow> (string \<times> string) list" where
  "query_loop filt [] searchParams = searchParams"
| "query_loop filt (field # rest) searchParams =
     query_loop filt rest
       (if has_key filt field
        then URLSearchParams_set searchParams (camelToSnake field) (js_String (js_get filt field))
        else searchParams)"

text \<open>Lines 282 to 300: the loop, then the special case of \<^verbatim>\<open>resourceName\<close>.\<close>

definition cloudStorages_searchParams :: "obj \<Rightarrow> (string \<times> string) list" where
  "cloudStorages_searchParams filt =
     (let searchParams =
        query_loop filt
          [''displayName'', ''credentialsType'', ''providerType'', ''owner'', ''search'',
           ''id'', ''page'', ''description''] []
      in if has_key filt ''resourceName''
         then URLSearchParams_set searchParams ''resource'' (js_String (js_get filt ''resourceName''))
         else searchParams)"

text \<open>
  \<open>CloudStorage\<close> stands for \<^verbatim>\<open>new CloudStorage(raw)\<close> of \<^verbatim>\<open>./cloud-storage\<close> (not among the
  sources).
\<close>

definition cvat_cloudStorages_get ::
  "serverProxy \<Rightarrow> enums \<Rightarrow> (jsval \<Rightarrow> error + 'storage) \<Rightarrow> obj \<Rightarrow> 'storage collection eff" where
  "cvat_cloudStorages_get sp E CloudStorage filt =
     eff_bind (eff_lift (checkFilter filt (cloudStorages_schema E))) (\<lambda>_.
     eff_bind (eff_lift (checkExclusiveFields filt [''id'', ''search''] [''page''])) (\<lambda>_.
     eff_bind
       (eff_await (CloudStoragesGet (URLSearchParams_toString (cloudStorages_searchParams filt)))
          (cloudStorages_get sp (URLSearchParams_toString (cloudStorages_searchParams filt))))
       (\<lambda>cloudStoragesData.
     eff_bind (eff_lift (map_new CloudStorage (results cloudStoragesData))) (\<lambda>cloudStorages.
     eff_return \<lparr>items = cloudStorages, count = reply_count cloudStoragesData\<rparr>))))"

subsection \<open>\<^verbatim>\<open>cvat.organizations\<close> (lines 308 to 321)\<close>

definition cvat_organizations_get ::
  "serverProxy \<Rightarrow> (jsval \<Rightarrow> error + 'org) \<Rightarrow> 'org list eff" where
  "cvat_organizations_get sp Organization =
     eff_bind (eff_await OrganizationsGet (organizations_get sp)) (\<lambda>organizationsData.
     eff_lift (map_new Organization organizationsData))"






subsection \<open>Classifying errors\<close>

definition is_schema_error :: "error \<Rightarrow> bool" where
  "is_schema_error e =
     (case e of InvalidFieldError k \<Rightarrow> True | InvalidTypeError k p v \<Rightarrow> True | _ \<Rightarrow> False)"

subsection \<open>Sample collaborators\<close>

text \<open>
  A transport, enumerations, a job getter and two type checks to run the operations on
  concrete inputs.
\<close>

definition three_records :: "jsval list" where
  "three_records = [JObj [(''id'', JNum 11)], JObj [(''id'', JNum 12)], JObj [(''id'', JNum 13)]]"

definition sp_sample :: serverProxy where
  "sp_sample =
     \<lparr>users_self = Inr (JObj [(''id'', JNum 1)]),
      users_get = (\<lambda>q. Inr [JObj q]),
      tasks_get = (\<lambda>q.
        if q = [(''id'', JNum 4)]
        then Inr \<lparr>results = [JObj [(''id'', JNum 4)]], reply_count = JNum 1\<rparr>
        else if q = [(''id'', JNum 9)] then Inr \<lparr>results = [], reply_count = JNum 0\<rparr>
        else Inr \<lparr>results = three_records, reply_count = JNum 37\<rparr>),
      jobs_get = (\<lambda>q.
        if q = [(''id'', JNum 7)] then Inr JNull
        else if q = [(''id'', JNum 3)] then Inr (JObj [(''id'', JNum 3)])
        else Inr (JObj [(''results'', JArr [JObj [(''id'', JNum 3)]]), (''count'', JNum 1)])),
      projects_get = (\<lambda>q.
        Inr \<lparr>project_results =
               [[(''id'', JNum 2), (''name'', JStr ''p''), (''tasks'', JArr [JNum 4, JNum 5])]],
             project_count = JNum 1\<rparr>),
      cloudStorages_get = (\<lambda>q. Inr \<lparr>results = [], reply_count = JNum 0\<rparr>),
      organizations_get = Inr []\<rparr>"

definition sp_no_count :: serverProxy where
  "sp_no_count =
     sp_sample\<lparr>tasks_get := (\<lambda>q. Inr \<lparr>results = three_records, reply_count = JUndefined\<rparr>)\<rparr>"

definition enums_sample :: enums where
  "enums_sample =
     \<lparr>TaskStatus = [JStr ''annotation'', JStr ''validation'', JStr ''completed''],
      TaskMode = [JStr ''annotation'', JStr ''interpolation''],
      DimensionType = [JStr ''2d'', JStr ''3d''],
      CloudStorageProviderType = [JStr ''AWS_S3_BUCKET'', JStr ''AZURE_CONTAINER''],
      CloudStorageCredentialsType = [JStr ''KEY_SECRET_KEY_PAIR'', JStr ''ANONYMOUS_ACCESS'']\<rparr>"

definition one_job :: "jsval \<Rightarrow> jsval collection" where
  "one_job t = \<lparr>items = [t], count = JUndefined\<rparr>"



section \<open>Properties\<close>

subsection \<open>Plain objects, effects and maps over constructors\<close>

lemma map_of_js_set: "map_of (js_set ps k v) k' = (if k' = k then Some v else map_of ps k')"
  by (induction ps k v rule: js_set.induct) auto

lemma js_set_fresh: "k \<notin> fst ` set ps \<Longrightarrow> js_set ps k v = ps @ [(k, v)]"
  by (induction ps) auto

lemma js_get_absent: "k \<notin> fst ` set ob \<Longrightarrow> js_get ob k = JUndefined"
proof -
  assume "k \<notin> fst ` set ob"
  then have "map_of ob k = None" by (simp add: map_of_eq_None_iff)
  then show ?thesis by (simp add: js_get_def)
qed

lemma js_get_distinct: "distinct (map fst ob) \<Longrightarrow> list_all (\<lambda>p. js_get ob (fst p) = snd p) ob"
  by (auto simp: list_all_iff js_get_def)

lemma eff_bind_lift_Inr: "eff_bind (eff_lift (Inr x)) f = f x"
  by (simp add: eff_bind_def eff_lift_def split: prod.splits)

lemma eff_bind_lift_Inl: "eff_bind (eff_lift (Inl e)) f = ([], Inl e)"
  by (simp add: eff_bind_def eff_lift_def)

lemma eff_bind_await_Inr: "eff_bind (eff_await c (Inr x)) f = (c # fst (f x), snd (f x))"
  by (simp add: eff_bind_def eff_await_def split: prod.splits)

lemma eff_bind_await_Inl: "eff_bind (eff_await c (Inl e)) f = ([c], Inl e)"
  by (simp add: eff_bind_def eff_await_def)

lemma fst_eff_bind_await: "fst (eff_bind (eff_await c r) (\<lambda>x. eff_lift (f x))) = [c]"
  by (cases r) (simp_all add: eff_bind_def eff_await_def eff_lift_def)

lemma map_new_Inr: "map_new C xs = Inr ys \<Longrightarrow> list_all2 (\<lambda>x y. C x = Inr y) xs ys"
  by (induction xs arbitrary: ys) (auto split: sum.splits)

subsection \<open>The validator and the exclusivity check\<close>

lemma checkFilter_error: "checkFilter filt schema = Inl e \<Longrightarrow> is_schema_error e"
  by (induction filt schema rule: checkFilter.induct)
     (auto simp: is_schema_error_def split: option.splits if_splits)

lemma checkFilter_rejects:
  "(k, v) \<in> set filt \<Longrightarrow>
   map_of schema k = None \<or> (\<exists>p. map_of schema k = Some p \<and> \<not> accepts p v) \<Longrightarrow>
   \<exists>e. checkFilter filt schema = Inl e"
  by (induction filt schema rule: checkFilter.induct)
     (auto split: option.splits if_splits)

lemma checkFilter_rejects_entry:
  assumes "(k, v) \<in> set filt
      \<and> (map_of schema k = None \<or> (\<exists>p. map_of schema k = Some p \<and> \<not> accepts p v))"
  shows "\<exists>e. checkFilter filt schema = Inl e \<and> is_schema_error e"
proof -
  from assms have "(k, v) \<in> set filt"
    and "map_of schema k = None \<or> (\<exists>p. map_of schema k = Some p \<and> \<not> accepts p v)"
    by simp_all
  then obtain e where "checkFilter filt schema = Inl e"
    using checkFilter_rejects by blast
  then show ?thesis
    using checkFilter_error by blast
qed

lemma two_present:
  assumes "g1 \<in> set gs" "g2 \<in> set gs" "g1 \<noteq> g2" "P g1" "P g2"
  shows "1 < length [g \<leftarrow> gs. P g]"
proof -
  have "{g1, g2} \<subseteq> set [g \<leftarrow> gs. P g]" using assms by auto
  then have "card {g1, g2} \<le> card (set [g \<leftarrow> gs. P g])"
    by (intro card_mono) auto
  also have "\<dots> \<le> length [g \<leftarrow> gs. P g]" by (rule card_length)
  finally show ?thesis using assms(3) by simp
qed

lemma checkExclusiveFields_conflict:
  assumes "g1 \<in> set exclusive" "g2 \<in> set exclusive" "g1 \<noteq> g2" "has_key filt g1" "has_key filt g2"
  shows "checkExclusiveFields filt exclusive allowed =
           Inl (ConflictingFieldsError [field \<leftarrow> exclusive. has_key filt field])"
  using two_present [OF assms(1-3), of "has_key filt"] assms(4,5)
  by (simp add: checkExclusiveFields_def)

lemma checkExclusiveFields_single:
  assumes "distinct exclusive" and "\<forall>k. has_key filt k \<longrightarrow> k = g \<or> k \<in> set allowed"
      and "set allowed \<inter> set exclusive = {}"
  shows "checkExclusiveFields filt exclusive allowed = Inr ()"
proof -
  let ?present = "[field \<leftarrow> exclusive. has_key filt field]"
  have sub: "set ?present \<subseteq> {g}"
    using assms(2,3) by auto
  have "distinct ?present"
    using assms(1) by simp
  then have "length ?present = card (set ?present)"
    by (rule distinct_card [symmetric])
  also have "\<dots> \<le> card {g}"
    using sub by (intro card_mono) auto
  finally have "length ?present \<le> 1" by simp
  then show ?thesis by (simp add: checkExclusiveFields_def)
qed

subsection \<open>The query of \<^verbatim>\<open>cvat.users.get\<close>\<close>

lemma users_loop_map_of:
  "map_of (users_loop filt ks acc) k =
     (if k \<in> set ks \<and> truthy (js_get filt k) \<and> k \<noteq> ''self''
      then Some (js_get filt k) else map_of acc k)"
  by (induction filt ks acc rule: users_loop.induct) (auto simp: map_of_js_set)

lemma users_searchParams_map_of:
  "map_of (users_searchParams filt) k =
     (if truthy (js_get filt k) \<and> k \<noteq> ''self'' then Some (js_get filt k) else None)"
  using js_get_absent [of k filt]
  by (auto simp: users_searchParams_def users_loop_map_of)

lemma users_loop_distinct:
  "distinct (map fst g) \<Longrightarrow> fst ` set acc \<inter> fst ` set g = {} \<Longrightarrow>
   list_all (\<lambda>p. js_get filt (fst p) = snd p) g \<Longrightarrow>
   users_loop filt (map fst g) acc = acc @ [p \<leftarrow> g. truthy (snd p) \<and> fst p \<noteq> ''self'']"
proof (induction g arbitrary: acc)
  case Nil
  then show ?case by simp
next
  case (Cons p g)
  obtain k v where p: "p = (k, v)" by (cases p)
  from Cons.prems p have kv: "js_get filt k = v" and fresh: "k \<notin> fst ` set acc"
    and kg: "k \<notin> fst ` set g" and dg: "distinct (map fst g)"
    and rest: "list_all (\<lambda>p. js_get filt (fst p) = snd p) g"
    and disj: "fst ` set acc \<inter> fst ` set g = {}"
    by auto
  show ?case
  proof (cases "truthy v \<and> k \<noteq> ''self''")
    case True
    have "fst ` set (acc @ [(k, v)]) \<inter> fst ` set g = {}"
      using disj kg by auto
    from Cons.IH [OF dg this rest] True show ?thesis
      by (simp add: p kv js_set_fresh [OF fresh])
  next
    case False
    from Cons.IH [OF dg disj rest] False show ?thesis
      by (auto simp add: p kv)
  qed
qed

lemma users_searchParams_distinct:
  "distinct (map fst filt) \<Longrightarrow>
   users_searchParams filt = [p \<leftarrow> filt. truthy (snd p) \<and> fst p \<noteq> ''self'']"
  using users_loop_distinct [of filt "[]" filt] js_get_distinct [of filt]
  by (simp add: users_searchParams_def)

subsection \<open>The query of \<^verbatim>\<open>cvat.cloudStorages.get\<close>\<close>

lemma map_of_filter_fst: "map_of [p \<leftarrow> ps. fst p \<noteq> n] k = (if k = n then None else map_of ps k)"
  by (induction ps) auto

lemma map_of_URLSearchParams_set:
  "map_of (URLSearchParams_set ps n v) k = (if k = n then Some v else map_of ps k)"
  by (induction ps n v rule: URLSearchParams_set.induct) (auto simp: map_of_filter_fst)

lemma keys_URLSearchParams_set:
  "fst ` set (URLSearchParams_set ps n v) = insert n (fst ` set ps)"
  by (induction ps n v rule: URLSearchParams_set.induct) auto

lemma distinct_URLSearchParams_set:
  "distinct (map fst ps) \<Longrightarrow> distinct (map fst (URLSearchParams_set ps n v))"
proof (induction ps)
  case Nil
  then show ?case by simp
next
  case (Cons p ps)
  obtain k w where p: "p = (k, w)" by (cases p)
  from Cons.prems p have k: "k \<notin> fst ` set ps" and d: "distinct (map fst ps)"
    by simp_all
  show ?case
  proof (cases "k = n")
    case True
    have "distinct (map fst [q \<leftarrow> ps. fst q \<noteq> n])"
      using d by (rule distinct_map_filter)
    moreover have "n \<notin> fst ` set [q \<leftarrow> ps. fst q \<noteq> n]"
      by auto
    ultimately show ?thesis using True p by simp
  next
    case False
    have "k \<notin> fst ` set (URLSearchParams_set ps n v)"
      using False k by (simp add: keys_URLSearchParams_set)
    with Cons.IH [OF d] False p show ?thesis by simp
  qed
qed

lemma query_loop_append:
  "query_loop filt (xs @ ys) acc = query_loop filt ys (query_loop filt xs acc)"
  by (induction filt xs acc rule: query_loop.induct) auto

lemma query_loop_other:
  "k \<notin> set (map camelToSnake fs) \<Longrightarrow> map_of (query_loop filt fs acc) k = map_of acc k"
  by (induction filt fs acc rule: query_loop.induct) (auto simp: map_of_URLSearchParams_set)

lemma query_loop_distinct:
  "distinct (map fst acc) \<Longrightarrow> distinct (map fst (query_loop filt fs acc))"
proof (induction fs arbitrary: acc)
  case Nil
  then show ?case by simp
next
  case (Cons f fs)
  then show ?case
    by (simp add: distinct_URLSearchParams_set del: distinct_map)
qed

lemma snake_names:
  "map camelToSnake [''displayName'', ''credentialsType'', ''providerType'', ''owner'', ''search'',
      ''id'', ''page'', ''description'']
   = [''display_name'', ''credentials_type'', ''provider_type'', ''owner'', ''search'',
      ''id'', ''page'', ''description'']"
  by code_simp

lemma snake_names_tail:
  "map camelToSnake [''owner'', ''search'', ''id'', ''page'', ''description'']
   = [''owner'', ''search'', ''id'', ''page'', ''description'']"
  by code_simp

lemma snake_providerType: "camelToSnake ''providerType'' = ''provider_type''"
  by code_simp

lemma query_loop_providerType:
  assumes "has_key filt ''providerType''"
  shows "map_of (query_loop filt [''providerType''] acc) ''provider_type''
         = Some (js_String (js_get filt ''providerType''))"
  using assms by (simp add: snake_providerType map_of_URLSearchParams_set del: camelToSnake.simps)

lemma provider_type_in_loop:
  assumes "has_key filt ''providerType''"
  shows "map_of (query_loop filt [''displayName'', ''credentialsType'', ''providerType'', ''owner'',
             ''search'', ''id'', ''page'', ''description''] []) ''provider_type''
         = Some (js_String (js_get filt ''providerType''))"
proof -
  have other: "''provider_type'' \<notin> set (map camelToSnake [''owner'', ''search'', ''id'', ''page'', ''description''])"
    unfolding snake_names_tail by simp
  have "query_loop filt [''displayName'', ''credentialsType'', ''providerType'', ''owner'',
             ''search'', ''id'', ''page'', ''description''] []
      = query_loop filt [''owner'', ''search'', ''id'', ''page'', ''description'']
          (query_loop filt [''providerType'']
             (query_loop filt [''displayName'', ''credentialsType''] []))"
    using query_loop_append [of filt "[''displayName'', ''credentialsType'']"
        "[''providerType''] @ [''owner'', ''search'', ''id'', ''page'', ''description'']" "[]"]
      query_loop_append [of filt "[''providerType'']"
        "[''owner'', ''search'', ''id'', ''page'', ''description'']"
        "query_loop filt [''displayName'', ''credentialsType''] []"]
    by (simp only: append.simps)
  then show ?thesis
    by (simp only: query_loop_other [OF other] query_loop_providerType [OF assms])
qed

lemma resource_name_not_in_loop:
  "map_of (query_loop filt [''displayName'', ''credentialsType'', ''providerType'', ''owner'',
             ''search'', ''id'', ''page'', ''description''] []) ''resource_name'' = None"
proof -
  have "''resource_name'' \<notin> set (map camelToSnake [''displayName'', ''credentialsType'', ''providerType'', ''owner'',
             ''search'', ''id'', ''page'', ''description''])"
    unfolding snake_names by simp
  from query_loop_other [OF this, of filt "[]"] show ?thesis
    by (simp only: map_of.simps)
qed

lemma cloudStorages_searchParams_map_of:
  "map_of (cloudStorages_searchParams filt) k =
     (if has_key filt ''resourceName'' \<and> k = ''resource''
      then Some (js_String (js_get filt ''resourceName''))
      else map_of (query_loop filt
          [''displayName'', ''credentialsType'', ''providerType'', ''owner'', ''search'',
           ''id'', ''page'', ''description''] []) k)"
  by (simp add: cloudStorages_searchParams_def Let_def map_of_URLSearchParams_set
      del: query_loop.simps)

lemma cloudStorages_searchParams_distinct:
  "distinct (map fst (cloudStorages_searchParams filt))"
proof -
  have "distinct (map fst (query_loop filt
          [''displayName'', ''credentialsType'', ''providerType'', ''owner'', ''search'',
           ''id'', ''page'', ''description''] []))"
    by (rule query_loop_distinct) simp
  then show ?thesis
    by (simp add: cloudStorages_searchParams_def Let_def distinct_URLSearchParams_set
        del: query_loop.simps distinct_map)
qed

lemma cloudStorages_get_trace:
  assumes "checkFilter filt (cloudStorages_schema E) = Inr ()"
      and "checkExclusiveFields filt [''id'', ''search''] [''page''] = Inr ()"
  shows "fst (cvat_cloudStorages_get sp E CloudStorage filt)
            = [CloudStoragesGet (URLSearchParams_toString (cloudStorages_searchParams filt))]"
proof (cases "cloudStorages_get sp (URLSearchParams_toString (cloudStorages_searchParams filt))")
  case (Inl e)
  with assms show ?thesis
    by (simp add: cvat_cloudStorages_get_def eff_bind_lift_Inr eff_bind_await_Inl)
next
  case (Inr rep)
  with assms show ?thesis
    by (cases "map_new CloudStorage (results rep)")
       (simp_all add: cvat_cloudStorages_get_def eff_bind_lift_Inr eff_bind_lift_Inl
        eff_bind_await_Inr eff_return_def)
qed

lemma tasks_get_trace:
  assumes "checkFilter filt (tasks_schema E) = Inr ()"
      and "checkExclusiveFields filt [''id'', ''search'', ''projectId''] [''page''] = Inr ()"
  shows "fst (cvat_tasks_get sp E Task filt) = [TasksGet (tasks_searchParams filt)]"
proof (cases "tasks_get sp (tasks_searchParams filt)")
  case (Inl e)
  with assms show ?thesis
    by (simp add: cvat_tasks_get_def eff_bind_lift_Inr eff_bind_await_Inl)
next
  case (Inr rep)
  with assms show ?thesis
    by (cases "map_new Task (results rep)")
       (simp_all add: cvat_tasks_get_def eff_bind_lift_Inr eff_bind_lift_Inl
        eff_bind_await_Inr eff_return_def)
qed

section \<open>The claims\<close>

subsection \<open>\<^verbatim>\<open>cvat.jobs.get\<close>\<close>

text \<open>
  Claim C1 (fetching jobs with only \<^verbatim>\<open>jobID\<close>: one element when the direct fetch yields a
  record, an empty collection when it does not). The code at two filters. At \<^verbatim>\<open>{jobID: 3}\<close>,
  whose direct fetch yields a record, the operation makes that one call and returns the
  one job. At \<^verbatim>\<open>{jobID: 7}\<close>, whose direct fetch yields \<^verbatim>\<open>null\<close>, lines 176 to 181 return
  nothing, so the operation goes on to line 183, queries the generic jobs endpoint with
  the filter itself and returns that page, here one job with count 1, instead of an empty
  collection.
\<close>

theorem jobs_get_by_job_not_found:
  "cvat_jobs_get sp_sample Inr one_job Inr [(''jobID'', JNum 3)] =
     ([JobsGet [(''id'', JNum 3)]], Inr \<lparr>items = [JObj [(''id'', JNum 3)]], count = JUndefined\<rparr>)
   \<and> cvat_jobs_get sp_sample Inr one_job Inr [(''jobID'', JNum 7)] =
     ([JobsGet [(''id'', JNum 7)], JobsGet [(''jobID'', JNum 7)]],
      Inr \<lparr>items = [JObj [(''id'', JNum 3)]], count = JNum 1\<rparr>)"
  by (simp add: cvat_jobs_get_def jobs_schema_def has_key_def js_get_def sp_sample_def
      jobs_page_def page_results_def page_count_def
      eff_bind_def eff_lift_def eff_await_def eff_return_def)

text \<open>
  Claim C2, as stated, at the filter \<^verbatim>\<open>{taskID: '4', jobID: 2}\<close>, which has both keys: the
  validator of line 154 runs before the test of line 163 and refuses the string, so the
  operation fails with the validator's error and not with the \<open>ArgumentError\<close> about the
  two conflicting fields.
\<close>

theorem jobs_get_conflict_counterexample:
  "has_key [(''taskID'', JStr ''4''), (''jobID'', JNum 2)] ''taskID''
   \<and> has_key [(''taskID'', JStr ''4''), (''jobID'', JNum 2)] ''jobID''
   \<and> cvat_jobs_get sp_sample Inr one_job Inr [(''taskID'', JStr ''4''), (''jobID'', JNum 2)]
       = ([], Inl (InvalidTypeError ''taskID'' isInteger (JStr ''4'')))
   \<and> InvalidTypeError ''taskID'' isInteger (JStr ''4'') \<noteq> ArgumentError conflict_message"
  by (simp add: has_key_def cvat_jobs_get_def jobs_schema_def eff_bind_lift_Inl)

text \<open>
  Claim C2, amended. A filter that has both \<^verbatim>\<open>taskID\<close> and \<^verbatim>\<open>jobID\<close> makes the operation fail
  before any transport call, whatever else it holds: with the \<open>ArgumentError\<close> of line 164
  about the two conflicting fields when it passes the validator, and with the validator's
  own error when it does not.
\<close>

theorem jobs_get_conflict:
  assumes "has_key filt ''taskID''" and "has_key filt ''jobID''"
  shows "fst (cvat_jobs_get sp Task Task_jobs Job filt) = []
       \<and> (\<exists>e. snd (cvat_jobs_get sp Task Task_jobs Job filt) = Inl e)
       \<and> (checkFilter filt jobs_schema = Inr () \<longrightarrow>
            cvat_jobs_get sp Task Task_jobs Job filt = ([], Inl (ArgumentError conflict_message)))
       \<and> (\<forall>e. checkFilter filt jobs_schema = Inl e \<longrightarrow>
            cvat_jobs_get sp Task Task_jobs Job filt = ([], Inl e))"
proof (cases "checkFilter filt jobs_schema")
  case (Inl e)
  then show ?thesis
    by (simp add: cvat_jobs_get_def eff_bind_lift_Inl)
next
  case (Inr u)
  with assms show ?thesis
    by (simp add: cvat_jobs_get_def eff_bind_lift_Inr eff_throw_def)
qed

theorem jobs_get_conflict_witness:
  "has_key [(''taskID'', JNum 1), (''jobID'', JNum 2)] ''taskID''
   \<and> has_key [(''taskID'', JNum 1), (''jobID'', JNum 2)] ''jobID''
   \<and> checkFilter [(''taskID'', JNum 1), (''jobID'', JNum 2)] jobs_schema = Inr ()
   \<and> cvat_jobs_get sp_sample Inr one_job Inr [(''taskID'', JNum 1), (''jobID'', JNum 2)]
       = ([], Inl (ArgumentError conflict_message))
   \<and> has_key [(''taskID'', JNum 1), (''jobID'', JNum 2), (''bogus'', JNum 0)] ''taskID''
   \<and> has_key [(''taskID'', JNum 1), (''jobID'', JNum 2), (''bogus'', JNum 0)] ''jobID''
   \<and> checkFilter [(''taskID'', JNum 1), (''jobID'', JNum 2), (''bogus'', JNum 0)] jobs_schema
       = Inl (InvalidFieldError ''bogus'')
   \<and> cvat_jobs_get sp_sample Inr one_job Inr
        [(''taskID'', JNum 1), (''jobID'', JNum 2), (''bogus'', JNum 0)]
       = ([], Inl (InvalidFieldError ''bogus''))"
  using jobs_get_conflict [of "[(''taskID'', JNum 1), (''jobID'', JNum 2)]" sp_sample Inr one_job Inr]
    jobs_get_conflict [of "[(''taskID'', JNum 1), (''jobID'', JNum 2), (''bogus'', JNum 0)]"
      sp_sample Inr one_job Inr]
  by (simp add: has_key_def jobs_schema_def)

text \<open>
  Claim C7. For a filter that passes the validator and has \<^verbatim>\<open>taskID\<close> and not \<^verbatim>\<open>jobID\<close>, the
  operation makes exactly one transport call, the fetch of the tasks with that id, and
  never calls the jobs endpoint. It returns the \<^verbatim>\<open>jobs\<close> of the task built from the first
  record of the reply, and an empty array when the reply is empty.
\<close>

theorem jobs_get_by_task:
  assumes valid: "checkFilter filt jobs_schema = Inr ()"
      and task: "has_key filt ''taskID''" and nojob: "\<not> has_key filt ''jobID''"
  shows "fst (cvat_jobs_get sp Task Task_jobs Job filt) = [TasksGet [(''id'', js_get filt ''taskID'')]]
       \<and> (\<forall>q. JobsGet q \<notin> set (fst (cvat_jobs_get sp Task Task_jobs Job filt)))
       \<and> snd (cvat_jobs_get sp Task Task_jobs Job filt) =
           (case tasks_get sp [(''id'', js_get filt ''taskID'')] of
              Inl e \<Rightarrow> Inl e
            | Inr tasksData \<Rightarrow>
                (case results tasksData of
                   [] \<Rightarrow> Inr \<lparr>items = [], count = JUndefined\<rparr>
                 | task # _ \<Rightarrow>
                     if truthy task
                     then (case Task task of Inl e \<Rightarrow> Inl e | Inr t \<Rightarrow> Inr (Task_jobs t))
                     else Inr \<lparr>items = [], count = JUndefined\<rparr>))"
proof -
  let ?q = "[(''id'', js_get filt ''taskID'')]"
  have run: "cvat_jobs_get sp Task Task_jobs Job filt =
      eff_bind (eff_await (TasksGet ?q) (tasks_get sp ?q))
         (\<lambda>tasksData.
            case results tasksData of
              [] \<Rightarrow> eff_return \<lparr>items = [], count = JUndefined\<rparr>
            | task # _ \<Rightarrow>
                if truthy task
                then eff_bind (eff_lift (Task task)) (\<lambda>t. eff_return (Task_jobs t))
                else eff_return \<lparr>items = [], count = JUndefined\<rparr>)"
    using task nojob by (simp add: cvat_jobs_get_def valid eff_bind_lift_Inr)
  show ?thesis
  proof (cases "tasks_get sp ?q")
    case (Inl e)
    then show ?thesis by (simp add: run eff_bind_await_Inl)
  next
    case (Inr tasksData)
    show ?thesis
    proof (cases "results tasksData")
      case Nil
      with Inr show ?thesis by (simp add: run eff_bind_await_Inr eff_return_def)
    next
      case (Cons task rest)
      show ?thesis
      proof (cases "Task task")
        case (Inl e)
        with Inr Cons show ?thesis
          by (simp add: run eff_bind_await_Inr eff_return_def eff_bind_lift_Inl)
      next
        case (Inr t)
        with \<open>tasks_get sp ?q = Inr tasksData\<close> Cons show ?thesis
          by (simp add: run eff_bind_await_Inr eff_return_def eff_bind_lift_Inr)
      qed
    qed
  qed
qed

theorem jobs_get_by_task_witness:
  "checkFilter [(''taskID'', JNum 4)] jobs_schema = Inr ()
   \<and> has_key [(''taskID'', JNum 4)] ''taskID'' \<and> \<not> has_key [(''taskID'', JNum 4)] ''jobID''
   \<and> cvat_jobs_get sp_sample Inr one_job Inr [(''taskID'', JNum 4)]
       = ([TasksGet [(''id'', JNum 4)]], Inr \<lparr>items = [JObj [(''id'', JNum 4)]], count = JUndefined\<rparr>)
   \<and> checkFilter [(''taskID'', JNum 9)] jobs_schema = Inr ()
   \<and> cvat_jobs_get sp_sample Inr one_job Inr [(''taskID'', JNum 9)]
       = ([TasksGet [(''id'', JNum 9)]], Inr \<lparr>items = [], count = JUndefined\<rparr>)"
  using jobs_get_by_task [of "[(''taskID'', JNum 4)]" sp_sample Inr one_job Inr]
    jobs_get_by_task [of "[(''taskID'', JNum 9)]" sp_sample Inr one_job Inr]
  by (simp add: has_key_def js_get_def jobs_schema_def sp_sample_def one_job_def prod_eq_iff)

subsection \<open>The exclusivity check and the validator\<close>

text \<open>
  Claim C3. With the exclusivity group \<^verbatim>\<open>id\<close>, \<^verbatim>\<open>search\<close>, \<^verbatim>\<open>projectId\<close> and the allowed
  companion \<^verbatim>\<open>page\<close> of the tasks-fetch operation: a filter that has two distinct members
  of the group fails the check with \<open>ConflictingFieldsError\<close> listing both, and so does the
  operation when the filter passes the validator; a filter that has one member of the
  group and otherwise only allowed companions passes the check, and the operation goes
  on to the transport.
\<close>

theorem tasks_exclusive_fields:
  "(g1 \<in> set [''id'', ''search'', ''projectId''] \<and> g2 \<in> set [''id'', ''search'', ''projectId'']
      \<and> g1 \<noteq> g2 \<and> has_key filt g1 \<and> has_key filt g2
     \<longrightarrow> (\<exists>cs. checkExclusiveFields filt [''id'', ''search'', ''projectId''] [''page'']
                  = Inl (ConflictingFieldsError cs) \<and> g1 \<in> set cs \<and> g2 \<in> set cs)
         \<and> (checkFilter filt (tasks_schema E) = Inr () \<longrightarrow>
              (\<exists>cs. cvat_tasks_get sp E Task filt = ([], Inl (ConflictingFieldsError cs)))))
   \<and> (g \<in> set [''id'', ''search'', ''projectId''] \<and> has_key filt g
      \<and> (\<forall>k. has_key filt k \<longrightarrow> k = g \<or> k \<in> set [''page''])
     \<longrightarrow> checkExclusiveFields filt [''id'', ''search'', ''projectId''] [''page''] = Inr ()
         \<and> (checkFilter filt (tasks_schema E) = Inr () \<longrightarrow>
              fst (cvat_tasks_get sp E Task filt) = [TasksGet (tasks_searchParams filt)]))"
proof (intro conjI impI)
  assume a: "g1 \<in> set [''id'', ''search'', ''projectId''] \<and> g2 \<in> set [''id'', ''search'', ''projectId'']
      \<and> g1 \<noteq> g2 \<and> has_key filt g1 \<and> has_key filt g2"
  then have c: "checkExclusiveFields filt [''id'', ''search'', ''projectId''] [''page''] =
      Inl (ConflictingFieldsError [field \<leftarrow> [''id'', ''search'', ''projectId'']. has_key filt field])"
    by (intro checkExclusiveFields_conflict [of g1 _ g2]) simp_all
  from a have "g1 \<in> set [field \<leftarrow> [''id'', ''search'', ''projectId'']. has_key filt field]"
    and "g2 \<in> set [field \<leftarrow> [''id'', ''search'', ''projectId'']. has_key filt field]"
    by (simp_all only: set_filter mem_Collect_eq simp_thms)
  with c show "\<exists>cs. checkExclusiveFields filt [''id'', ''search'', ''projectId''] [''page'']
                  = Inl (ConflictingFieldsError cs) \<and> g1 \<in> set cs \<and> g2 \<in> set cs"
    by blast
  assume "checkFilter filt (tasks_schema E) = Inr ()"
  with c show "\<exists>cs. cvat_tasks_get sp E Task filt = ([], Inl (ConflictingFieldsError cs))"
    by (simp add: cvat_tasks_get_def eff_bind_lift_Inr eff_bind_lift_Inl)
next
  assume a: "g \<in> set [''id'', ''search'', ''projectId''] \<and> has_key filt g
      \<and> (\<forall>k. has_key filt k \<longrightarrow> k = g \<or> k \<in> set [''page''])"
  then have "\<forall>k. has_key filt k \<longrightarrow> k = g \<or> k \<in> set [''page'']" by blast
  then show c: "checkExclusiveFields filt [''id'', ''search'', ''projectId''] [''page''] = Inr ()"
    by (rule checkExclusiveFields_single [rotated]) simp_all
  assume "checkFilter filt (tasks_schema E) = Inr ()"
  then show "fst (cvat_tasks_get sp E Task filt) = [TasksGet (tasks_searchParams filt)]"
    using c by (rule tasks_get_trace)
qed

lemma sample_tasks_query:
  "tasks_searchParams [(''id'', JNum 5), (''page'', JNum 2)] = [(''id'', JNum 5), (''page'', JNum 2)]"
  by code_simp

theorem tasks_exclusive_fields_witness:
  "has_key [(''id'', JNum 5), (''search'', JStr ''x'')] ''id''
   \<and> has_key [(''id'', JNum 5), (''search'', JStr ''x'')] ''search''
   \<and> checkFilter [(''id'', JNum 5), (''search'', JStr ''x'')] (tasks_schema enums_sample) = Inr ()
   \<and> checkExclusiveFields [(''id'', JNum 5), (''search'', JStr ''x'')]
        [''id'', ''search'', ''projectId''] [''page'']
       = Inl (ConflictingFieldsError [''id'', ''search''])
   \<and> cvat_tasks_get sp_sample enums_sample Inr [(''id'', JNum 5), (''search'', JStr ''x'')]
       = ([], Inl (ConflictingFieldsError [''id'', ''search'']))
   \<and> checkFilter [(''id'', JNum 5), (''page'', JNum 2)] (tasks_schema enums_sample) = Inr ()
   \<and> checkExclusiveFields [(''id'', JNum 5), (''page'', JNum 2)]
        [''id'', ''search'', ''projectId''] [''page''] = Inr ()
   \<and> fst (cvat_tasks_get sp_sample enums_sample Inr [(''id'', JNum 5), (''page'', JNum 2)])
       = [TasksGet [(''id'', JNum 5), (''page'', JNum 2)]]"
proof -
  let ?both = "[(''id'', JNum 5), (''search'', JStr ''x'')]"
  let ?paged = "[(''id'', JNum 5), (''page'', JNum 2)]"
  have keys: "has_key ?both ''id''" "has_key ?both ''search''"
    by (simp_all add: has_key_def)
  have valid: "checkFilter ?both (tasks_schema enums_sample) = Inr ()"
    "checkFilter ?paged (tasks_schema enums_sample) = Inr ()"
    by (simp_all add: tasks_schema_def)
  have only: "\<forall>k. has_key ?paged k \<longrightarrow> k = ''id'' \<or> k \<in> set [''page'']"
    by (simp add: has_key_def)
  have conflict: "checkExclusiveFields ?both [''id'', ''search'', ''projectId''] [''page'']
       = Inl (ConflictingFieldsError [''id'', ''search''])"
    by (simp add: checkExclusiveFields_def has_key_def)
  from tasks_exclusive_fields [where ?g1.0 = "''id''" and ?g2.0 = "''search''" and filt = ?both
      and E = enums_sample and sp = sp_sample and Task = Inr, THEN conjunct1] keys valid(1)
  have "\<exists>cs. cvat_tasks_get sp_sample enums_sample Inr ?both = ([], Inl (ConflictingFieldsError cs))"
    by simp
  then have fails: "cvat_tasks_get sp_sample enums_sample Inr ?both
       = ([], Inl (ConflictingFieldsError [''id'', ''search'']))"
    unfolding cvat_tasks_get_def valid(1) eff_bind_lift_Inr conflict eff_bind_lift_Inl
    by simp
  from tasks_exclusive_fields [where g = "''id''" and filt = ?paged
      and E = enums_sample and sp = sp_sample and Task = Inr, THEN conjunct2] only valid(2)
  have passes: "checkExclusiveFields ?paged [''id'', ''search'', ''projectId''] [''page''] = Inr ()"
    and "fst (cvat_tasks_get sp_sample enums_sample Inr ?paged) = [TasksGet (tasks_searchParams ?paged)]"
    by (simp_all add: has_key_def)
  then show ?thesis
    using keys valid conflict fails by (simp add: sample_tasks_query)
qed

text \<open>
  Claim C8. A filter with an entry whose key the schema lacks, or whose value the schema's
  predicate refuses, makes the validator fail with \<open>InvalidFieldError\<close> or
  \<open>InvalidTypeError\<close>. Each operation returns the validator's error as it is, with no
  transport call and without running the exclusivity check, so the error is never
  \<open>ConflictingFieldsError\<close> (for the jobs fetch, never the \<open>ArgumentError\<close> of line 164),
  whether or not the filter also mixes exclusive fields.
\<close>

theorem schema_error_before_conflict:
  "((k, v) \<in> set filt
      \<and> (map_of (tasks_schema E) k = None
          \<or> (\<exists>p. map_of (tasks_schema E) k = Some p \<and> \<not> accepts p v))
     \<longrightarrow> (\<exists>e. cvat_tasks_get sp E Task filt = ([], Inl e) \<and> is_schema_error e
              \<and> (\<forall>cs. e \<noteq> ConflictingFieldsError cs)))
   \<and> ((k, v) \<in> set filt
      \<and> (map_of (projects_schema E) k = None
          \<or> (\<exists>p. map_of (projects_schema E) k = Some p \<and> \<not> accepts p v))
     \<longrightarrow> (\<exists>e. cvat_projects_get sp E Project filt = ([], Inl e) \<and> is_schema_error e
              \<and> (\<forall>cs. e \<noteq> ConflictingFieldsError cs)))
   \<and> ((k, v) \<in> set filt
      \<and> (map_of (cloudStorages_schema E) k = None
          \<or> (\<exists>p. map_of (cloudStorages_schema E) k = Some p \<and> \<not> accepts p v))
     \<longrightarrow> (\<exists>e. cvat_cloudStorages_get sp E CloudStorage filt = ([], Inl e) \<and> is_schema_error e
              \<and> (\<forall>cs. e \<noteq> ConflictingFieldsError cs)))
   \<and> ((k, v) \<in> set filt
      \<and> (map_of jobs_schema k = None
          \<or> (\<exists>p. map_of jobs_schema k = Some p \<and> \<not> accepts p v))
     \<longrightarrow> (\<exists>e. cvat_jobs_get sp Task' Task_jobs Job filt = ([], Inl e) \<and> is_schema_error e
              \<and> e \<noteq> ArgumentError conflict_message))"
proof (intro conjI impI)
  assume "(k, v) \<in> set filt
      \<and> (map_of (tasks_schema E) k = None
          \<or> (\<exists>p. map_of (tasks_schema E) k = Some p \<and> \<not> accepts p v))"
  then obtain e where e: "checkFilter filt (tasks_schema E) = Inl e" and "is_schema_error e"
    using checkFilter_rejects_entry [of k v filt "tasks_schema E"] by blast
  moreover from e have "cvat_tasks_get sp E Task filt = ([], Inl e)"
    by (simp add: cvat_tasks_get_def eff_bind_lift_Inl)
  ultimately show "\<exists>e. cvat_tasks_get sp E Task filt = ([], Inl e) \<and> is_schema_error e
              \<and> (\<forall>cs. e \<noteq> ConflictingFieldsError cs)"
    by (auto simp: is_schema_error_def)
next
  assume "(k, v) \<in> set filt
      \<and> (map_of (projects_schema E) k = None
          \<or> (\<exists>p. map_of (projects_schema E) k = Some p \<and> \<not> accepts p v))"
  then obtain e where e: "checkFilter filt (projects_schema E) = Inl e" and "is_schema_error e"
    using checkFilter_rejects_entry [of k v filt "projects_schema E"] by blast
  moreover from e have "cvat_projects_get sp E Project filt = ([], Inl e)"
    by (simp add: cvat_projects_get_def eff_bind_lift_Inl)
  ultimately show "\<exists>e. cvat_projects_get sp E Project filt = ([], Inl e) \<and> is_schema_error e
              \<and> (\<forall>cs. e \<noteq> ConflictingFieldsError cs)"
    by (auto simp: is_schema_error_def)
next
  assume "(k, v) \<in> set filt
      \<and> (map_of (cloudStorages_schema E) k = None
          \<or> (\<exists>p. map_of (cloudStorages_schema E) k = Some p \<and> \<not> accepts p v))"
  then obtain e where e: "checkFilter filt (cloudStorages_schema E) = Inl e"
    and "is_schema_error e"
    using checkFilter_rejects_entry [of k v filt "cloudStorages_schema E"] by blast
  moreover from e have "cvat_cloudStorages_get sp E CloudStorage filt = ([], Inl e)"
    by (simp add: cvat_cloudStorages_get_def eff_bind_lift_Inl)
  ultimately show "\<exists>e. cvat_cloudStorages_get sp E CloudStorage filt = ([], Inl e)
              \<and> is_schema_error e \<and> (\<forall>cs. e \<noteq> ConflictingFieldsError cs)"
    by (auto simp: is_schema_error_def)
next
  assume "(k, v) \<in> set filt
      \<and> (map_of jobs_schema k = None
          \<or> (\<exists>p. map_of jobs_schema k = Some p \<and> \<not> accepts p v))"
  then obtain e where e: "checkFilter filt jobs_schema = Inl e" and "is_schema_error e"
    using checkFilter_rejects_entry [of k v filt jobs_schema] by blast
  moreover from e have "cvat_jobs_get sp Task' Task_jobs Job filt = ([], Inl e)"
    by (simp add: cvat_jobs_get_def eff_bind_lift_Inl)
  ultimately show "\<exists>e. cvat_jobs_get sp Task' Task_jobs Job filt = ([], Inl e)
              \<and> is_schema_error e \<and> e \<noteq> ArgumentError conflict_message"
    by (auto simp: is_schema_error_def)
qed

theorem schema_error_before_conflict_witness:
  "(''bogus'', JNum 1) \<in> set [(''id'', JNum 5), (''search'', JStr ''x''), (''bogus'', JNum 1)]
   \<and> map_of (tasks_schema enums_sample) ''bogus'' = None
   \<and> checkExclusiveFields [(''id'', JNum 5), (''search'', JStr ''x''), (''bogus'', JNum 1)]
        [''id'', ''search'', ''projectId''] [''page'']
       = Inl (ConflictingFieldsError [''id'', ''search''])
   \<and> cvat_tasks_get sp_sample enums_sample Inr
        [(''id'', JNum 5), (''search'', JStr ''x''), (''bogus'', JNum 1)]
       = ([], Inl (InvalidFieldError ''bogus''))
   \<and> is_schema_error (InvalidFieldError ''bogus'')
   \<and> (''taskID'', JStr ''4'') \<in> set [(''taskID'', JStr ''4''), (''jobID'', JNum 2)]
   \<and> map_of jobs_schema ''taskID'' = Some isInteger \<and> \<not> accepts isInteger (JStr ''4'')
   \<and> cvat_jobs_get sp_sample Inr one_job Inr [(''taskID'', JStr ''4''), (''jobID'', JNum 2)]
       = ([], Inl (InvalidTypeError ''taskID'' isInteger (JStr ''4'')))"
proof -
  let ?mixed = "[(''id'', JNum 5), (''search'', JStr ''x''), (''bogus'', JNum 1)]"
  let ?typed = "[(''taskID'', JStr ''4''), (''jobID'', JNum 2)]"
  have unknown: "map_of (tasks_schema enums_sample) ''bogus'' = None"
    by (simp add: tasks_schema_def)
  have wrong: "map_of jobs_schema ''taskID'' = Some isInteger" "\<not> accepts isInteger (JStr ''4'')"
    by (simp_all add: jobs_schema_def)
  have conflict: "checkExclusiveFields ?mixed [''id'', ''search'', ''projectId''] [''page'']
       = Inl (ConflictingFieldsError [''id'', ''search''])"
    by (simp add: checkExclusiveFields_def has_key_def)
  have rejected: "checkFilter ?mixed (tasks_schema enums_sample) = Inl (InvalidFieldError ''bogus'')"
    by (simp add: tasks_schema_def)
  have refused: "checkFilter ?typed jobs_schema = Inl (InvalidTypeError ''taskID'' isInteger (JStr ''4''))"
    by (simp add: jobs_schema_def)
  from schema_error_before_conflict [where k = "''bogus''" and v = "JNum 1" and filt = ?mixed
      and E = enums_sample and sp = sp_sample and Task = Inr, THEN conjunct1] unknown
  obtain e where "cvat_tasks_get sp_sample enums_sample Inr ?mixed = ([], Inl e)"
    by auto
  then have tasks: "cvat_tasks_get sp_sample enums_sample Inr ?mixed
      = ([], Inl (InvalidFieldError ''bogus''))"
    unfolding cvat_tasks_get_def rejected eff_bind_lift_Inl by simp
  from schema_error_before_conflict [where k = "''taskID''" and v = "JStr ''4''" and filt = ?typed
      and sp = sp_sample and Task' = Inr and Task_jobs = one_job and Job = Inr,
      THEN conjunct2, THEN conjunct2, THEN conjunct2] wrong
  obtain e' where "cvat_jobs_get sp_sample Inr one_job Inr ?typed = ([], Inl e')"
    by auto
  then have jobs: "cvat_jobs_get sp_sample Inr one_job Inr ?typed
       = ([], Inl (InvalidTypeError ''taskID'' isInteger (JStr ''4'')))"
    unfolding cvat_jobs_get_def refused eff_bind_lift_Inl by simp
  show ?thesis
    using unknown wrong conflict tasks jobs by (simp add: is_schema_error_def)
qed

subsection \<open>\<^verbatim>\<open>cvat.users.get\<close>\<close>

text \<open>
  Claim C9. When the filter passes the validator and its \<^verbatim>\<open>self\<close> key is absent or falsy,
  the operation calls the users endpoint once, with a query that holds exactly the entries
  of the filter whose value is truthy and whose key is not \<^verbatim>\<open>self\<close>: an entry with a falsy
  value (\<^verbatim>\<open>is_active: false\<close>, \<^verbatim>\<open>id: 0\<close>) and the \<^verbatim>\<open>self\<close> key itself are left out.
\<close>

theorem users_get_forwards_truthy:
  assumes "checkFilter filt users_schema = Inr ()"
      and "\<not> (has_key filt ''self'' \<and> truthy (js_get filt ''self''))"
  shows "fst (cvat_users_get sp User filt) = [UsersGet (users_searchParams filt)]
       \<and> (\<forall>k. map_of (users_searchParams filt) k =
               (if truthy (js_get filt k) \<and> k \<noteq> ''self'' then Some (js_get filt k) else None))
       \<and> (distinct (map fst filt) \<longrightarrow>
            users_searchParams filt = [p \<leftarrow> filt. truthy (snd p) \<and> fst p \<noteq> ''self''])"
proof -
  from assms(2) have other: "(has_key filt ''self'' \<and> truthy (js_get filt ''self'')) = False"
    by simp
  have "fst (cvat_users_get sp User filt) = [UsersGet (users_searchParams filt)]"
    unfolding cvat_users_get_def assms(1) eff_bind_lift_Inr other if_False
    by (rule fst_eff_bind_await)
  then show ?thesis
    by (simp add: users_searchParams_map_of users_searchParams_distinct)
qed

theorem users_get_forwards_truthy_witness:
  "checkFilter [(''id'', JNum 0), (''is_active'', JBool False), (''search'', JStr ''bob''),
      (''self'', JBool False)] users_schema = Inr ()
   \<and> \<not> truthy (js_get [(''id'', JNum 0), (''is_active'', JBool False), (''search'', JStr ''bob''),
      (''self'', JBool False)] ''self'')
   \<and> distinct (map fst [(''id'', JNum 0), (''is_active'', JBool False), (''search'', JStr ''bob''),
      (''self'', JBool False)])
   \<and> users_searchParams [(''id'', JNum 0), (''is_active'', JBool False), (''search'', JStr ''bob''),
      (''self'', JBool False)] = [(''search'', JStr ''bob'')]
   \<and> cvat_users_get sp_sample Inr [(''id'', JNum 0), (''is_active'', JBool False),
      (''search'', JStr ''bob''), (''self'', JBool False)]
       = ([UsersGet [(''search'', JStr ''bob'')]], Inr [JObj [(''search'', JStr ''bob'')]])"
  using users_get_forwards_truthy [of "[(''id'', JNum 0), (''is_active'', JBool False),
      (''search'', JStr ''bob''), (''self'', JBool False)]" sp_sample Inr]
  by (simp add: users_schema_def js_get_def has_key_def cvat_users_get_def sp_sample_def
      eff_bind_def eff_lift_def eff_await_def)

subsection \<open>\<^verbatim>\<open>cvat.cloudStorages.get\<close>\<close>

text \<open>
  Claim C4. In the query that the cloud-storages fetch builds, the value of \<^verbatim>\<open>providerType\<close>
  stands under \<^verbatim>\<open>provider_type\<close> and the value of \<^verbatim>\<open>resourceName\<close> under \<^verbatim>\<open>resource\<close>,
  whenever the filter has the key; no filter gives a pair named \<^verbatim>\<open>resource_name\<close>, and no
  name occurs twice. The serialized query is what the operation hands to the transport
  once the filter has passed the validator and the exclusivity check.
\<close>

theorem cloudStorages_field_translation:
  "(has_key filt ''providerType'' \<longrightarrow>
      map_of (cloudStorages_searchParams filt) ''provider_type''
        = Some (js_String (js_get filt ''providerType'')))
   \<and> (has_key filt ''resourceName'' \<longrightarrow>
      map_of (cloudStorages_searchParams filt) ''resource''
        = Some (js_String (js_get filt ''resourceName'')))
   \<and> map_of (cloudStorages_searchParams filt) ''resource_name'' = None
   \<and> distinct (map fst (cloudStorages_searchParams filt))
   \<and> (checkFilter filt (cloudStorages_schema E) = Inr ()
        \<and> checkExclusiveFields filt [''id'', ''search''] [''page''] = Inr ()
      \<longrightarrow> fst (cvat_cloudStorages_get sp E CloudStorage filt)
            = [CloudStoragesGet (URLSearchParams_toString (cloudStorages_searchParams filt))])"
proof (intro conjI impI)
  assume "has_key filt ''providerType''"
  then show "map_of (cloudStorages_searchParams filt) ''provider_type''
        = Some (js_String (js_get filt ''providerType''))"
    by (simp add: cloudStorages_searchParams_map_of provider_type_in_loop
        del: query_loop.simps)
next
  assume "has_key filt ''resourceName''"
  then show "map_of (cloudStorages_searchParams filt) ''resource''
        = Some (js_String (js_get filt ''resourceName''))"
    by (simp add: cloudStorages_searchParams_map_of del: query_loop.simps)
next
  show "map_of (cloudStorages_searchParams filt) ''resource_name'' = None"
    by (simp add: cloudStorages_searchParams_map_of resource_name_not_in_loop
        del: query_loop.simps)
next
  show "distinct (map fst (cloudStorages_searchParams filt))"
    by (rule cloudStorages_searchParams_distinct)
next
  assume "checkFilter filt (cloudStorages_schema E) = Inr ()
        \<and> checkExclusiveFields filt [''id'', ''search''] [''page''] = Inr ()"
  then show "fst (cvat_cloudStorages_get sp E CloudStorage filt)
            = [CloudStoragesGet (URLSearchParams_toString (cloudStorages_searchParams filt))]"
    by (simp add: cloudStorages_get_trace)
qed

lemma sample_cloud_query:
  "cloudStorages_searchParams
     [(''providerType'', JStr ''AWS_S3_BUCKET''), (''resourceName'', JStr ''my bucket'')]
   = [(''provider_type'', ''AWS_S3_BUCKET''), (''resource'', ''my bucket'')]"
  by code_simp

lemma sample_cloud_string:
  "URLSearchParams_toString [(''provider_type'', ''AWS_S3_BUCKET''), (''resource'', ''my bucket'')]
   = ''provider_type=AWS_S3_BUCKET&resource=my+bucket''"
  by code_simp

theorem cloudStorages_field_translation_witness:
  "has_key [(''providerType'', JStr ''AWS_S3_BUCKET''), (''resourceName'', JStr ''my bucket'')]
     ''providerType''
   \<and> has_key [(''providerType'', JStr ''AWS_S3_BUCKET''), (''resourceName'', JStr ''my bucket'')]
     ''resourceName''
   \<and> checkFilter [(''providerType'', JStr ''AWS_S3_BUCKET''), (''resourceName'', JStr ''my bucket'')]
       (cloudStorages_schema enums_sample) = Inr ()
   \<and> checkExclusiveFields
       [(''providerType'', JStr ''AWS_S3_BUCKET''), (''resourceName'', JStr ''my bucket'')]
       [''id'', ''search''] [''page''] = Inr ()
   \<and> cloudStorages_searchParams
       [(''providerType'', JStr ''AWS_S3_BUCKET''), (''resourceName'', JStr ''my bucket'')]
      = [(''provider_type'', ''AWS_S3_BUCKET''), (''resource'', ''my bucket'')]
   \<and> fst (cvat_cloudStorages_get sp_sample enums_sample Inr
       [(''providerType'', JStr ''AWS_S3_BUCKET''), (''resourceName'', JStr ''my bucket'')])
      = [CloudStoragesGet ''provider_type=AWS_S3_BUCKET&resource=my+bucket'']"
proof -
  let ?f = "[(''providerType'', JStr ''AWS_S3_BUCKET''), (''resourceName'', JStr ''my bucket'')]"
  have keys: "has_key ?f ''providerType''" "has_key ?f ''resourceName''"
    by (simp_all add: has_key_def)
  have valid: "checkFilter ?f (cloudStorages_schema enums_sample) = Inr ()"
    by (simp add: cloudStorages_schema_def enums_sample_def)
  have free: "checkExclusiveFields ?f [''id'', ''search''] [''page''] = Inr ()"
    by (simp add: checkExclusiveFields_def has_key_def)
  from cloudStorages_field_translation [where filt = ?f and E = enums_sample and sp = sp_sample
      and CloudStorage = Inr] valid free
  have "fst (cvat_cloudStorages_get sp_sample enums_sample Inr ?f)
      = [CloudStoragesGet (URLSearchParams_toString (cloudStorages_searchParams ?f))]"
    by blast
  then show ?thesis
    using keys valid free by (simp add: sample_cloud_query sample_cloud_string)
qed

subsection \<open>Collections\<close>

text \<open>
  Claim C5, as stated, at a reply of three records that carries no count: the collection
  has the three entities and its count is \<^verbatim>\<open>undefined\<close>, not 3.
\<close>

theorem collection_count_counterexample:
  "cvat_tasks_get sp_no_count enums_sample Inr []
     = ([TasksGet []], Inr \<lparr>items = three_records, count = JUndefined\<rparr>)
   \<and> length three_records = 3
   \<and> JUndefined \<noteq> JNum (int (length three_records))"
  by (simp add: cvat_tasks_get_def tasks_schema_def checkExclusiveFields_def has_key_def
      tasks_searchParams_def three_records_def sp_no_count_def sp_sample_def
      eff_bind_def eff_lift_def eff_await_def eff_return_def)

text \<open>
  Claim C5, amended. When the tasks-fetch operation, or the jobs-fetch operation on a
  filter with neither \<^verbatim>\<open>taskID\<close> nor \<^verbatim>\<open>jobID\<close>, gets a list of raw records from the
  transport and every constructor succeeds, the collection holds the entities built from
  the records, one for one and in the order of the reply, and its count is the \<^verbatim>\<open>count\<close>
  property of the reply, whatever that is: the declared total when the reply carries one,
  \<^verbatim>\<open>undefined\<close> when it carries none.
\<close>

theorem collection_adaptation:
  "(checkFilter filt (tasks_schema E) = Inr ()
      \<and> checkExclusiveFields filt [''id'', ''search'', ''projectId''] [''page''] = Inr ()
      \<and> tasks_get sp (tasks_searchParams filt) = Inr tasksData
      \<and> map_new Task (results tasksData) = Inr tasks
     \<longrightarrow> snd (cvat_tasks_get sp E Task filt) = Inr \<lparr>items = tasks, count = reply_count tasksData\<rparr>
         \<and> list_all2 (\<lambda>raw t. Task raw = Inr t) (results tasksData) tasks)
   \<and> (checkFilter filt jobs_schema = Inr ()
      \<and> \<not> has_key filt ''taskID'' \<and> \<not> has_key filt ''jobID''
      \<and> jobs_get sp filt = Inr (JObj page) \<and> js_get page ''results'' = JArr raws
      \<and> map_new Job raws = Inr jobs
     \<longrightarrow> snd (cvat_jobs_get sp Task' Task_jobs Job filt)
           = Inr \<lparr>items = jobs, count = js_get page ''count''\<rparr>
         \<and> list_all2 (\<lambda>raw j. Job raw = Inr j) raws jobs)"
proof (intro conjI impI)
  assume a: "checkFilter filt (tasks_schema E) = Inr ()
      \<and> checkExclusiveFields filt [''id'', ''search'', ''projectId''] [''page''] = Inr ()
      \<and> tasks_get sp (tasks_searchParams filt) = Inr tasksData
      \<and> map_new Task (results tasksData) = Inr tasks"
  then show "snd (cvat_tasks_get sp E Task filt) = Inr \<lparr>items = tasks, count = reply_count tasksData\<rparr>"
    by (simp add: cvat_tasks_get_def eff_bind_lift_Inr eff_bind_await_Inr eff_return_def)
  from a show "list_all2 (\<lambda>raw t. Task raw = Inr t) (results tasksData) tasks"
    by (simp add: map_new_Inr)
next
  assume a: "checkFilter filt jobs_schema = Inr ()
      \<and> \<not> has_key filt ''taskID'' \<and> \<not> has_key filt ''jobID''
      \<and> jobs_get sp filt = Inr (JObj page) \<and> js_get page ''results'' = JArr raws
      \<and> map_new Job raws = Inr jobs"
  then show "snd (cvat_jobs_get sp Task' Task_jobs Job filt)
      = Inr \<lparr>items = jobs, count = js_get page ''count''\<rparr>"
    by (simp add: cvat_jobs_get_def jobs_page_def page_results_def page_count_def
        eff_bind_lift_Inr eff_bind_await_Inr eff_return_def)
  from a show "list_all2 (\<lambda>raw j. Job raw = Inr j) raws jobs"
    by (simp add: map_new_Inr)
qed

lemma sample_empty_query: "tasks_searchParams [] = []"
  by (simp add: tasks_searchParams_def has_key_def)

theorem collection_adaptation_witness:
  "checkFilter [] (tasks_schema enums_sample) = Inr ()
   \<and> checkExclusiveFields [] [''id'', ''search'', ''projectId''] [''page''] = Inr ()
   \<and> tasks_get sp_sample (tasks_searchParams [])
       = Inr \<lparr>results = three_records, reply_count = JNum 37\<rparr>
   \<and> map_new Inr three_records = Inr three_records
   \<and> length three_records = 3
   \<and> snd (cvat_tasks_get sp_sample enums_sample Inr [])
       = Inr \<lparr>items = three_records, count = JNum 37\<rparr>
   \<and> jobs_get sp_sample []
       = Inr (JObj [(''results'', JArr [JObj [(''id'', JNum 3)]]), (''count'', JNum 1)])
   \<and> snd (cvat_jobs_get sp_sample Inr one_job Inr [])
       = Inr \<lparr>items = [JObj [(''id'', JNum 3)]], count = JNum 1\<rparr>"
proof -
  have reply: "tasks_get sp_sample (tasks_searchParams [])
       = Inr \<lparr>results = three_records, reply_count = JNum 37\<rparr>"
    by (simp add: sp_sample_def sample_empty_query)
  have built: "map_new Inr three_records = Inr three_records"
    by (simp add: three_records_def)
  have page: "jobs_get sp_sample []
       = Inr (JObj [(''results'', JArr [JObj [(''id'', JNum 3)]]), (''count'', JNum 1)])"
    by (simp add: sp_sample_def)
  have checks: "checkFilter [] (tasks_schema enums_sample) = Inr ()"
    "checkExclusiveFields [] [''id'', ''search'', ''projectId''] [''page''] = Inr ()"
    by (simp_all add: checkExclusiveFields_def has_key_def)
  from collection_adaptation [where filt = "[]" and E = enums_sample and sp = sp_sample
      and tasksData = "\<lparr>results = three_records, reply_count = JNum 37\<rparr>" and Task = Inr
      and tasks = three_records, THEN conjunct1] checks reply built
  have tasks: "snd (cvat_tasks_get sp_sample enums_sample Inr [])
       = Inr \<lparr>items = three_records, count = JNum 37\<rparr>"
    by (simp add: sample_empty_query)
  from collection_adaptation [where filt = "[]" and sp = sp_sample
      and page = "[(''results'', JArr [JObj [(''id'', JNum 3)]]), (''count'', JNum 1)]"
      and raws = "[JObj [(''id'', JNum 3)]]" and Job = Inr and jobs = "[JObj [(''id'', JNum 3)]]"
      and Task' = Inr and Task_jobs = one_job, THEN conjunct2] page
  have jobs: "snd (cvat_jobs_get sp_sample Inr one_job Inr [])
       = Inr \<lparr>items = [JObj [(''id'', JNum 3)]], count = JNum 1\<rparr>"
    by (simp add: has_key_def js_get_def)
  show ?thesis
    using reply built page checks tasks jobs by (simp add: three_records_def sample_empty_query)
qed

subsection \<open>\<^verbatim>\<open>cvat.projects.get\<close>\<close>




subsection \<open>\<^verbatim>\<open>cvat.organizations.activate\<close> and \<^verbatim>\<open>deactivate\<close>\<close>




end
